theory Spec2Isabelle
  imports Complex_Main "HOL-Library.Word" "HOL-Library.Monad_Syntax"
begin

section \<open>Values of the page script\<close>

text \<open>
  The script \<^verbatim>\<open>frontend/app.js\<close> keeps five global variables, reads one DOM input
  (\<^verbatim>\<open>chatInput.value\<close>) and talks to three collaborators: the token endpoint, the
  LiveKit room and the MediaPipe landmark source. The model below keeps the globals and the
  input value in a record, and returns every call to a collaborator (and every \<^verbatim>\<open>addLog\<close>
  line) as an item of an effect list, in program order. Writes that only change how the page
  looks (\<^verbatim>\<open>innerText\<close>, \<^verbatim>\<open>classList\<close>, canvas drawing) are never read back by the script
  and are left out.
\<close>

subsection \<open>Strings\<close>

text \<open>
  A JavaScript string is a sequence of UTF-16 code units. Literals of the script are ASCII
  and are written with \<open>lit\<close>.
\<close>

type_synonym jsstring = "16 word list"

definition lit :: "string \<Rightarrow> jsstring" where
  "lit s = map of_char s"

text \<open>
  \<^verbatim>\<open>String.prototype.trim\<close> removes WhiteSpace and LineTerminator code points from both
  ends: TAB, LF, VT, FF, CR, SP, NBSP, the Unicode space separators (U+1680,
  U+2000..U+200A, U+202F, U+205F, U+3000), LS, PS and the byte order mark.
\<close>

definition isWhiteSpace :: "16 word \<Rightarrow> bool" where
  "isWhiteSpace c =
     (c = 0x9 \<or> c = 0xA \<or> c = 0xB \<or> c = 0xC \<or> c = 0xD \<or> c = 0x20 \<or> c = 0xA0
      \<or> c = 0x1680 \<or> (0x2000 \<le> c \<and> c \<le> 0x200A) \<or> c = 0x2028 \<or> c = 0x2029
      \<or> c = 0x202F \<or> c = 0x205F \<or> c = 0x3000 \<or> c = 0xFEFF)"

definition trim :: "jsstring \<Rightarrow> jsstring" where
  "trim s = rev (dropWhile isWhiteSpace (rev (dropWhile isWhiteSpace s)))"

text \<open>
  \<^verbatim>\<open>new TextEncoder().encode(s)\<close> gives the UTF-8 bytes of the string. It first reads the
  code units as Unicode scalar values: a high surrogate followed by a low surrogate is one
  code point beyond U+FFFF, and a surrogate that stands alone is replaced by U+FFFD.
\<close>

type_synonym bytes = "8 word list"

definition isHighSurrogate :: "16 word \<Rightarrow> bool" where
  "isHighSurrogate c = (0xD800 \<le> c \<and> c \<le> 0xDBFF)"

definition isLowSurrogate :: "16 word \<Rightarrow> bool" where
  "isLowSurrogate c = (0xDC00 \<le> c \<and> c \<le> 0xDFFF)"

fun scalar_values :: "jsstring \<Rightarrow> nat list" where
  "scalar_values [] = []"
| "scalar_values [c] = [if isHighSurrogate c \<or> isLowSurrogate c then 0xFFFD else unat c]"
| "scalar_values (c # d # cs) =
     (if isHighSurrogate c then
        (if isLowSurrogate d then
           (0x10000 + (unat c - 0xD800) * 0x400 + (unat d - 0xDC00)) # scalar_values cs
         else 0xFFFD # scalar_values (d # cs))
      else if isLowSurrogate c then 0xFFFD # scalar_values (d # cs)
      else unat c # scalar_values (d # cs))"

definition utf8 :: "nat \<Rightarrow> bytes" where
  "utf8 cp =
     (if cp < 0x80 then [of_nat cp]
      else if cp < 0x800 then [of_nat (0xC0 + cp div 0x40), of_nat (0x80 + cp mod 0x40)]
      else if cp < 0x10000 then
        [of_nat (0xE0 + cp div 0x1000), of_nat (0x80 + cp div 0x40 mod 0x40),
         of_nat (0x80 + cp mod 0x40)]
      else
        [of_nat (0xF0 + cp div 0x40000), of_nat (0x80 + cp div 0x1000 mod 0x40),
         of_nat (0x80 + cp div 0x40 mod 0x40), of_nat (0x80 + cp mod 0x40)])"

definition TextEncoder_encode :: "jsstring \<Rightarrow> bytes" where
  "TextEncoder_encode s = concat (map utf8 (scalar_values s))"

subsection \<open>Numbers\<close>

text \<open>
  Landmark coordinates are JavaScript Numbers. The script only compares them with \<^verbatim>\<open><\<close>,
  which on finite doubles is the order of the reals they denote, is false as soon as one
  side is NaN, and puts the infinities at the two ends.
\<close>

datatype jsnum = NaN | NegInf | Fin real | PosInf

fun js_lt :: "jsnum \<Rightarrow> jsnum \<Rightarrow> bool" where
  "js_lt NaN b = False"
| "js_lt a NaN = False"
| "js_lt a NegInf = False"
| "js_lt PosInf b = False"
| "js_lt NegInf b = True"
| "js_lt (Fin a) PosInf = True"
| "js_lt (Fin a) (Fin b) = (a < b)"

subsection \<open>Landmarks and gestures\<close>

record landmark =
  lm_x :: jsnum
  lm_y :: jsnum

text \<open>
  The four strings \<^verbatim>\<open>detectGesture\<close> returns; \<open>gesture_text\<close> gives the string itself,
  whose encoding is what is sent as the payload.
\<close>

datatype gesture = NONE | Open_Palm | Closed_Fist | Thumb_Up

fun gesture_text :: "gesture \<Rightarrow> jsstring" where
  "gesture_text NONE = lit ''NONE''"
| "gesture_text Open_Palm = lit ''Open_Palm''"
| "gesture_text Closed_Fist = lit ''Closed_Fist''"
| "gesture_text Thumb_Up = lit ''Thumb_Up''"

text \<open>
  \<^verbatim>\<open>landmarks[i]\<close> is \<^verbatim>\<open>undefined\<close> beyond the end of the array, and reading \<^verbatim>\<open>.x\<close> or
  \<^verbatim>\<open>.y\<close> of it throws a TypeError: \<open>None\<close> here.
\<close>

definition landmark_at :: "landmark list \<Rightarrow> nat \<Rightarrow> landmark option" where
  "landmark_at landmarks i = (if i < length landmarks then Some (landmarks ! i) else None)"

definition detectGesture :: "landmark list \<Rightarrow> gesture option" where
  "detectGesture landmarks = do {
     l4 \<leftarrow> landmark_at landmarks 4;
     l3 \<leftarrow> landmark_at landmarks 3;
     let thumbIsOpen = js_lt (lm_x l4) (lm_x l3);
     l8 \<leftarrow> landmark_at landmarks 8;
     l6 \<leftarrow> landmark_at landmarks 6;
     let indexIsOpen = js_lt (lm_y l8) (lm_y l6);
     l12 \<leftarrow> landmark_at landmarks 12;
     l10 \<leftarrow> landmark_at landmarks 10;
     let middleIsOpen = js_lt (lm_y l12) (lm_y l10);
     l16 \<leftarrow> landmark_at landmarks 16;
     l14 \<leftarrow> landmark_at landmarks 14;
     let ringIsOpen = js_lt (lm_y l16) (lm_y l14);
     l20 \<leftarrow> landmark_at landmarks 20;
     l18 \<leftarrow> landmark_at landmarks 18;
     let pinkyIsOpen = js_lt (lm_y l20) (lm_y l18);
     Some (if indexIsOpen \<and> middleIsOpen \<and> ringIsOpen \<and> pinkyIsOpen then Open_Palm
           else if \<not> indexIsOpen \<and> \<not> middleIsOpen \<and> \<not> ringIsOpen \<and> \<not> pinkyIsOpen then
             (if js_lt (lm_y l4) (lm_y l3) \<and> js_lt (lm_y l4) (lm_y l8) then Thumb_Up
              else Closed_Fist)
           else NONE)
   }"

section \<open>State and effects\<close>

text \<open>
  A Room object is named by the number of Room objects constructed before it.
  \<open>pending\<close> lists the suspended \<^verbatim>\<open>await\<close>s, oldest first.
\<close>

datatype task =
    Await_fetch
  | Await_json
  | Await_connect
  | Await_mic_init
  | Await_mic_toggle
  | Await_publish

record app_state =
  room :: "nat option"
  isConnected :: bool
  isMicOn :: bool
  lastGesture :: gesture
  lastGestureTime :: int
  chatInput :: jsstring
  roomsCreated :: nat
  pending :: "task list"

datatype effect =
    AddLog jsstring string
  | Console_error jsstring
  | Fetch_token
  | New_Room nat
  | Room_connect nat jsstring
  | Room_on nat string
  | Room_disconnect nat
  | SetMicrophoneEnabled nat bool
  | PublishData nat bytes string
  | Camera_start

text \<open>The values the globals are declared with; the chat input starts empty.\<close>

definition initial_state :: app_state where
  "initial_state =
     \<lparr>room = None, isConnected = False, isMicOn = False, lastGesture = NONE,
      lastGestureTime = 0, chatInput = [], roomsCreated = 0, pending = []\<rparr>"

section \<open>Gestures\<close>

text \<open>
  \<^verbatim>\<open>updateGestureUI(gesture)\<close>; \<open>now\<close> is the value \<^verbatim>\<open>Date.now()\<close> returns in the call,
  an integer number of milliseconds. The promise of \<^verbatim>\<open>publishData\<close> is dropped here, so
  nothing is left pending.
\<close>

definition updateGestureUI :: "app_state \<Rightarrow> gesture \<Rightarrow> int \<Rightarrow> app_state \<times> effect list" where
  "updateGestureUI st gesture now =
     (if now - lastGestureTime st > 2000 \<and> gesture \<noteq> lastGesture st then
        (st\<lparr>lastGesture := gesture, lastGestureTime := now\<rparr>,
         (case room st of
            None \<Rightarrow> []
          | Some r \<Rightarrow>
              if isConnected st then
                [PublishData r (TextEncoder_encode (gesture_text gesture)) ''gesture'',
                 AddLog (lit ''Gesture Sent: '' @ gesture_text gesture) ''system'']
              else []))
      else (st, []))"

text \<open>
  The loop of \<^verbatim>\<open>onResults\<close> over \<^verbatim>\<open>results.multiHandLandmarks\<close>. Each hand comes with the
  clock value read while it is handled. The flag of the result says whether the loop ran to
  its end (\<open>True\<close>) or a TypeError of \<^verbatim>\<open>detectGesture\<close> left it (\<open>False\<close>); what was done
  before the exception stays done.
\<close>

fun for_each_hand ::
  "app_state \<Rightarrow> (landmark list \<times> int) list \<Rightarrow> app_state \<times> effect list \<times> bool" where
  "for_each_hand st [] = (st, [], True)"
| "for_each_hand st ((landmarks, now) # rest) =
     (case detectGesture landmarks of
        None \<Rightarrow> (st, [], False)
      | Some gesture \<Rightarrow>
          (case (if gesture \<noteq> NONE then updateGestureUI st gesture now else (st, [])) of
             (st1, out1) \<Rightarrow>
               (case for_each_hand st1 rest of
                  (st2, out2, finished) \<Rightarrow> (st2, out1 @ out2, finished))))"

text \<open>
  \<^verbatim>\<open>onResults(results)\<close>: \<open>None\<close> is a result without \<^verbatim>\<open>multiHandLandmarks\<close>.
\<close>

definition onResults ::
  "app_state \<Rightarrow> (landmark list \<times> int) list option \<Rightarrow> app_state \<times> effect list \<times> bool" where
  "onResults st multiHandLandmarks =
     (case multiHandLandmarks of
        None \<Rightarrow> (st, [], True)
      | Some hs \<Rightarrow> for_each_hand st hs)"


section \<open>Session lifecycle and chat\<close>

text \<open>
  An \<^verbatim>\<open>async\<close> function runs up to its next \<^verbatim>\<open>await\<close>, and goes on in a later turn
  of the event loop when the awaited promise has settled; other handlers may run in between
  and every later part reads the globals as they are then. \<open>outcome\<close> is what a promise
  settles with: the response's \<^verbatim>\<open>ok\<close> flag, the \<^verbatim>\<open>token\<close> of the parsed body, nothing,
  or the message of the error.
\<close>

datatype outcome =
    Fulfilled_response bool
  | Fulfilled_json jsstring
  | Fulfilled
  | Rejected jsstring

definition suspend :: "app_state \<Rightarrow> task \<Rightarrow> app_state" where
  "suspend st t = st\<lparr>pending := pending st @ [t]\<rparr>"

text \<open>The \<^verbatim>\<open>catch\<close> block of \<^verbatim>\<open>connectToLiveKit\<close>.\<close>

definition connection_failed :: "jsstring \<Rightarrow> effect list" where
  "connection_failed message =
     [Console_error message, AddLog (lit ''Connection Failed: '' @ message) ''error'']"

text \<open>The message of the TypeError that a method call on \<^verbatim>\<open>null\<close> throws.\<close>

definition null_room_message :: jsstring where
  "null_room_message = lit ''Cannot read properties of null''"

text \<open>
  \<^verbatim>\<open>connectToLiveKit()\<close> up to \<^verbatim>\<open>await fetch(...)\<close>. The third component is the
  \<^verbatim>\<open>await\<close> the function stops at, \<open>None\<close> when it has returned.
\<close>

definition connectToLiveKit :: "app_state \<Rightarrow> app_state \<times> effect list \<times> task option" where
  "connectToLiveKit st =
     (if isConnected st then (st, [], None)
      else (st, [AddLog (lit ''Requesting access token...'') ''system'', Fetch_token],
            Some Await_fetch))"

text \<open>
  \<^verbatim>\<open>connectToLiveKit()\<close> from one \<^verbatim>\<open>await\<close> to the next. \<open>None\<close>: the outcome is not
  one this \<^verbatim>\<open>await\<close> can have. A rejection, like every exception in the \<^verbatim>\<open>try\<close> block,
  ends in the \<^verbatim>\<open>catch\<close> block.
\<close>

fun connectToLiveKit_resume ::
  "app_state \<Rightarrow> task \<Rightarrow> outcome \<Rightarrow> (app_state \<times> effect list \<times> task option) option" where
  "connectToLiveKit_resume st Await_fetch (Fulfilled_response ok) =
     Some (if ok then (st, [], Some Await_json)
           else (st, connection_failed (lit ''Failed to get token''), None))"
| "connectToLiveKit_resume st Await_json (Fulfilled_json token) =
     Some (st\<lparr>room := Some (roomsCreated st), roomsCreated := Suc (roomsCreated st)\<rparr>,
           [AddLog (lit ''Token acquired. Connecting to LiveKit...'') ''system'',
            New_Room (roomsCreated st), Room_connect (roomsCreated st) token],
           Some Await_connect)"
| "connectToLiveKit_resume st Await_connect Fulfilled =
     Some (case room st of
             None \<Rightarrow>
               (st\<lparr>isConnected := True\<rparr>,
                AddLog (lit ''L.I.S.A System Online. Voice Channel Active.'') ''system''
                  # connection_failed null_room_message,
                None)
           | Some r \<Rightarrow>
               (st\<lparr>isConnected := True\<rparr>,
                [AddLog (lit ''L.I.S.A System Online. Voice Channel Active.'') ''system'',
                 Room_on r ''DataReceived'', Room_on r ''ActiveSpeakersChanged'',
                 SetMicrophoneEnabled r True],
                Some Await_mic_init))"
| "connectToLiveKit_resume st Await_mic_init Fulfilled = Some (st\<lparr>isMicOn := True\<rparr>, [], None)"
| "connectToLiveKit_resume st Await_fetch (Rejected m) = Some (st, connection_failed m, None)"
| "connectToLiveKit_resume st Await_json (Rejected m) = Some (st, connection_failed m, None)"
| "connectToLiveKit_resume st Await_connect (Rejected m) = Some (st, connection_failed m, None)"
| "connectToLiveKit_resume st Await_mic_init (Rejected m) = Some (st, connection_failed m, None)"
| "connectToLiveKit_resume st t out = None"

text \<open>
  The click handler of the connect button. What it does after
  \<^verbatim>\<open>await connectToLiveKit()\<close> is \<open>connect_click_rest\<close>; \<open>after_connect\<close> runs it
  once \<^verbatim>\<open>connectToLiveKit\<close> has returned, and suspends otherwise.
\<close>

definition connect_click_rest :: "effect list" where
  "connect_click_rest = [Camera_start]"

fun after_connect :: "app_state \<times> effect list \<times> task option \<Rightarrow> app_state \<times> effect list" where
  "after_connect (st, out, None) = (st, out @ connect_click_rest)"
| "after_connect (st, out, Some t) = (suspend st t, out)"

definition connectBtn_click :: "app_state \<Rightarrow> app_state \<times> effect list" where
  "connectBtn_click st =
     (if \<not> isConnected st then after_connect (connectToLiveKit st)
      else (st\<lparr>isConnected := False\<rparr>,
            (case room st of None \<Rightarrow> [] | Some r \<Rightarrow> [Room_disconnect r])
              @ [AddLog (lit ''Disconnected.'') ''system'']))"

text \<open>The click handler of the microphone button, and its part after the \<^verbatim>\<open>await\<close>.\<close>

definition micBtn_click :: "app_state \<Rightarrow> app_state \<times> effect list" where
  "micBtn_click st =
     (case room st of
        None \<Rightarrow> (st, [])
      | Some r \<Rightarrow>
          (suspend (st\<lparr>isMicOn := \<not> isMicOn st\<rparr>) Await_mic_toggle,
           [SetMicrophoneEnabled r (\<not> isMicOn st)]))"

fun micBtn_resume :: "app_state \<Rightarrow> outcome \<Rightarrow> (app_state \<times> effect list) option" where
  "micBtn_resume st Fulfilled = Some (st, [])"
| "micBtn_resume st (Rejected m) = Some (st, [])"
| "micBtn_resume st out = None"

text \<open>
  \<^verbatim>\<open>sendChatMessage()\<close>, and its part after \<^verbatim>\<open>await publishData(...)\<close>. The empty string
  is the only falsy string. A rejected \<^verbatim>\<open>publishData\<close> leaves the input as it is.
\<close>

definition sendChatMessage :: "app_state \<Rightarrow> app_state \<times> effect list" where
  "sendChatMessage st =
     (let text = trim (chatInput st) in
      if text = [] then (st, [])
      else (case room st of
              None \<Rightarrow> (st, [])
            | Some r \<Rightarrow>
                (suspend st Await_publish,
                 [AddLog (lit ''You: '' @ text) ''user'',
                  PublishData r (TextEncoder_encode text) ''chat_message''])))"

fun sendChatMessage_resume :: "app_state \<Rightarrow> outcome \<Rightarrow> (app_state \<times> effect list) option" where
  "sendChatMessage_resume st Fulfilled = Some (st\<lparr>chatInput := []\<rparr>, [])"
| "sendChatMessage_resume st (Rejected m) = Some (st, [])"
| "sendChatMessage_resume st out = None"

definition chatInput_keypress :: "app_state \<Rightarrow> jsstring \<Rightarrow> app_state \<times> effect list" where
  "chatInput_keypress st key = (if key = lit ''Enter'' then sendChatMessage st else (st, []))"

section \<open>The event loop\<close>

text \<open>
  What can happen to the page: the user clicks a button, presses a key in the chat input or
  edits its text, the landmark source delivers a result, or the promise of the \<open>k\<close>-th
  pending \<^verbatim>\<open>await\<close> settles.
\<close>

datatype event =
    Click_connect
  | Click_mic
  | Click_send
  | Keypress jsstring
  | Input jsstring
  | Results "(landmark list \<times> int) list option"
  | Settle nat outcome

fun resume_task :: "app_state \<Rightarrow> task \<Rightarrow> outcome \<Rightarrow> (app_state \<times> effect list) option" where
  "resume_task st Await_mic_toggle out = micBtn_resume st out"
| "resume_task st Await_publish out = sendChatMessage_resume st out"
| "resume_task st t out = map_option after_connect (connectToLiveKit_resume st t out)"

definition settle :: "app_state \<Rightarrow> nat \<Rightarrow> outcome \<Rightarrow> app_state \<times> effect list" where
  "settle st k out =
     (if k < length (pending st) then
        (case resume_task (st\<lparr>pending := take k (pending st) @ drop (Suc k) (pending st)\<rparr>)
                (pending st ! k) out of
           None \<Rightarrow> (st, [])
         | Some res \<Rightarrow> res)
      else (st, []))"

fun step :: "app_state \<Rightarrow> event \<Rightarrow> app_state \<times> effect list" where
  "step st Click_connect = connectBtn_click st"
| "step st Click_mic = micBtn_click st"
| "step st Click_send = sendChatMessage st"
| "step st (Keypress key) = chatInput_keypress st key"
| "step st (Input text) = (st\<lparr>chatInput := text\<rparr>, [])"
| "step st (Results hs) = (case onResults st hs of (st1, out, finished) \<Rightarrow> (st1, out))"
| "step st (Settle k out) = settle st k out"

fun run :: "app_state \<Rightarrow> event list \<Rightarrow> app_state \<times> effect list" where
  "run st [] = (st, [])"
| "run st (e # es) =
     (case step st e of (st1, out1) \<Rightarrow>
        (case run st1 es of (st2, out2) \<Rightarrow> (st2, out1 @ out2)))"

text \<open>
  A session that connects without a failure: the click, then the token request, the body,
  the room connection and the microphone, each settling well.
\<close>

definition connect_ok :: "jsstring \<Rightarrow> event list" where
  "connect_ok token =
     [Click_connect, Settle 0 (Fulfilled_response True), Settle 0 (Fulfilled_json token),
      Settle 0 Fulfilled, Settle 0 Fulfilled]"

text \<open>Whether an event is a result of the landmark source.\<close>

fun delivers_hands :: "event \<Rightarrow> bool" where
  "delivers_hands (Results hs) = True"
| "delivers_hands e = False"


section \<open>Example inputs\<close>

text \<open>
  Hands of 21 landmarks, given by the \<open>y\<close> of each landmark (index 0 first), all at one
  \<open>x\<close>: an open palm, a fist with the thumb tip below its joint, a fist with the thumb tip
  above its joint and above the index tip, and a hand with the index finger alone stretched
  out.
\<close>

definition frame_of :: "real \<Rightarrow> real list \<Rightarrow> landmark list" where
  "frame_of x ys = map (\<lambda>y. \<lparr>lm_x = Fin x, lm_y = Fin y\<rparr>) ys"

definition open_palm_frame :: "landmark list" where
  "open_palm_frame = frame_of (1/2)
     [9/10, 8/10, 7/10, 6/10, 5/10,  6/10, 5/10, 4/10, 3/10,  6/10, 5/10, 4/10, 2/10,
      6/10, 5/10, 4/10, 3/10,  6/10, 5/10, 4/10, 3/10]"

definition fist_frame :: "landmark list" where
  "fist_frame = frame_of (1/2)
     [9/10, 8/10, 7/10, 6/10, 7/10,  6/10, 5/10, 6/10, 7/10,  6/10, 5/10, 6/10, 7/10,
      6/10, 5/10, 6/10, 7/10,  6/10, 5/10, 6/10, 7/10]"

definition thumb_up_frame :: "landmark list" where
  "thumb_up_frame = frame_of (1/2)
     [9/10, 8/10, 7/10, 6/10, 4/10,  6/10, 5/10, 6/10, 7/10,  6/10, 5/10, 6/10, 7/10,
      6/10, 5/10, 6/10, 7/10,  6/10, 5/10, 6/10, 7/10]"

definition pointing_frame :: "landmark list" where
  "pointing_frame = frame_of (1/2)
     [9/10, 8/10, 7/10, 6/10, 7/10,  6/10, 5/10, 4/10, 3/10,  6/10, 5/10, 6/10, 7/10,
      6/10, 5/10, 6/10, 7/10,  6/10, 5/10, 6/10, 7/10]"


text \<open>
  A hand with the \<open>y\<close> of \<open>thumb_up_frame\<close> at the landmarks 3, 4, 6, 8, 10, 12, 14, 16, 18
  and 20, another \<open>y\<close> at every other landmark and another \<open>x\<close> everywhere; its thumb tip
  is left of the thumb joint.
\<close>

definition thumb_up_shifted_frame :: "landmark list" where
  "thumb_up_shifted_frame =
     map (\<lambda>(x, y). \<lparr>lm_x = Fin x, lm_y = Fin y\<rparr>)
       (zip [9/10, 8/10, 7/10, 6/10, 5/10,  4/10, 3/10, 2/10, 1/10,  9/10, 8/10, 7/10, 6/10,
             5/10, 4/10, 3/10, 2/10,  1/10, 9/10, 8/10, 7/10]
            [1/10, 1/10, 1/10, 6/10, 4/10,  1/10, 5/10, 1/10, 7/10,  1/10, 5/10, 1/10, 7/10,
             1/10, 5/10, 1/10, 7/10,  1/10, 5/10, 1/10, 7/10])"


section \<open>Facts about \<open>trim\<close>\<close>

lemma dropWhile_all_iff: "(\<forall>x\<in>set (dropWhile P s). P x) \<longleftrightarrow> (\<forall>x\<in>set s. P x)"
  by (induction s) auto

lemma last_dropWhile: "dropWhile P xs \<noteq> [] \<Longrightarrow> last (dropWhile P xs) = last xs"
  by (induction xs) auto

lemma trim_eq_Nil: "trim s = [] \<longleftrightarrow> list_all isWhiteSpace s"
  by (simp add: trim_def dropWhile_all_iff list_all_iff)

lemma trim_decomp:
  "\<exists>pre suf. s = pre @ trim s @ suf \<and> list_all isWhiteSpace pre \<and> list_all isWhiteSpace suf"
proof -
  define t where "t = dropWhile isWhiteSpace s"
  define suf where "suf = rev (takeWhile isWhiteSpace (rev t))"
  have "trim s @ suf = rev (takeWhile isWhiteSpace (rev t) @ dropWhile isWhiteSpace (rev t))"
    unfolding trim_def suf_def t_def by (simp only: rev_append)
  also have "\<dots> = rev (rev t)"
    by (simp only: takeWhile_dropWhile_id)
  finally have b: "trim s @ suf = t"
    by simp
  have a: "s = takeWhile isWhiteSpace s @ t"
    by (simp add: t_def)
  have c: "list_all isWhiteSpace (takeWhile isWhiteSpace s)"
    by (auto simp: list_all_iff dest: set_takeWhileD)
  have d: "list_all isWhiteSpace suf"
    by (auto simp: suf_def list_all_iff dest: set_takeWhileD)
  from a b have "s = takeWhile isWhiteSpace s @ trim s @ suf" by simp
  with c d show ?thesis by blast
qed

lemma trim_ends:
  assumes "trim s \<noteq> []"
  shows "\<not> isWhiteSpace (hd (trim s)) \<and> \<not> isWhiteSpace (last (trim s))"
proof -
  define t where "t = dropWhile isWhiteSpace s"
  define u where "u = dropWhile isWhiteSpace (rev t)"
  have tr: "trim s = rev u" by (simp add: trim_def t_def u_def)
  with assms have u: "u \<noteq> []" by simp
  then have t: "t \<noteq> []" by (auto simp: u_def)
  have "last (trim s) = hd u" using u by (simp add: tr last_rev)
  moreover have "\<not> isWhiteSpace (hd u)" using u unfolding u_def by (rule hd_dropWhile)
  moreover have "hd (trim s) = last u" using u by (simp add: tr hd_rev)
  moreover have "last u = last (rev t)" using u unfolding u_def by (rule last_dropWhile)
  moreover have "last (rev t) = hd t" using t by (simp add: last_rev)
  moreover have "\<not> isWhiteSpace (hd t)" using t unfolding t_def by (rule hd_dropWhile)
  ultimately show ?thesis by simp
qed


section \<open>Evaluating the script\<close>

text \<open>The definitions a run of the script on given events unfolds to.\<close>

lemmas script_defs =
  connect_ok_def initial_state_def connectBtn_click_def connectToLiveKit_def suspend_def
  settle_def connect_click_rest_def connection_failed_def micBtn_click_def
  sendChatMessage_def chatInput_keypress_def onResults_def updateGestureUI_def
  trim_def isWhiteSpace_def lit_def Let_def

lemmas frame_defs = frame_of_def open_palm_frame_def fist_frame_def thumb_up_frame_def pointing_frame_def


section \<open>The classifier\<close>

text \<open>On a frame of 21 landmarks no read fails, and the result is the one of the three branches.\<close>

lemma detectGesture_frame:
  assumes "length landmarks = 21"
  shows "detectGesture landmarks = Some
     (if js_lt (lm_y (landmarks ! 8)) (lm_y (landmarks ! 6)) \<and>
         js_lt (lm_y (landmarks ! 12)) (lm_y (landmarks ! 10)) \<and>
         js_lt (lm_y (landmarks ! 16)) (lm_y (landmarks ! 14)) \<and>
         js_lt (lm_y (landmarks ! 20)) (lm_y (landmarks ! 18)) then Open_Palm
      else if \<not> js_lt (lm_y (landmarks ! 8)) (lm_y (landmarks ! 6)) \<and>
         \<not> js_lt (lm_y (landmarks ! 12)) (lm_y (landmarks ! 10)) \<and>
         \<not> js_lt (lm_y (landmarks ! 16)) (lm_y (landmarks ! 14)) \<and>
         \<not> js_lt (lm_y (landmarks ! 20)) (lm_y (landmarks ! 18)) then
        (if js_lt (lm_y (landmarks ! 4)) (lm_y (landmarks ! 3)) \<and>
            js_lt (lm_y (landmarks ! 4)) (lm_y (landmarks ! 8)) then Thumb_Up
         else Closed_Fist)
      else NONE)"
  using assms by (simp add: detectGesture_def landmark_at_def Let_def)

text \<open>
  C5. On every frame of 21 landmarks: when the tips 8, 12, 16 and 20 all have a \<open>y\<close>
  strictly below that of the joints 6, 10, 14 and 18, \<^verbatim>\<open>detectGesture\<close> returns
  \<^verbatim>\<open>Open_Palm\<close>; when none of the four has, it returns \<^verbatim>\<open>Thumb_Up\<close> if the \<open>y\<close> of
  landmark 4 is strictly below that of landmark 3 and that of landmark 8, and
  \<^verbatim>\<open>Closed_Fist\<close> if not; in every other case it returns \<^verbatim>\<open>NONE\<close>.
\<close>

theorem detectGesture_classifies:
  fixes landmarks :: "landmark list"
  defines "indexIsOpen \<equiv> js_lt (lm_y (landmarks ! 8)) (lm_y (landmarks ! 6))"
    and "middleIsOpen \<equiv> js_lt (lm_y (landmarks ! 12)) (lm_y (landmarks ! 10))"
    and "ringIsOpen \<equiv> js_lt (lm_y (landmarks ! 16)) (lm_y (landmarks ! 14))"
    and "pinkyIsOpen \<equiv> js_lt (lm_y (landmarks ! 20)) (lm_y (landmarks ! 18))"
    and "thumbUp \<equiv> js_lt (lm_y (landmarks ! 4)) (lm_y (landmarks ! 3)) \<and>
                    js_lt (lm_y (landmarks ! 4)) (lm_y (landmarks ! 8))"
  assumes frame: "length landmarks = 21"
  shows "(indexIsOpen \<and> middleIsOpen \<and> ringIsOpen \<and> pinkyIsOpen \<longrightarrow>
            detectGesture landmarks = Some Open_Palm) \<and>
         (\<not> indexIsOpen \<and> \<not> middleIsOpen \<and> \<not> ringIsOpen \<and> \<not> pinkyIsOpen \<longrightarrow>
            (thumbUp \<longrightarrow> detectGesture landmarks = Some Thumb_Up) \<and>
            (\<not> thumbUp \<longrightarrow> detectGesture landmarks = Some Closed_Fist)) \<and>
         (\<not> (indexIsOpen \<and> middleIsOpen \<and> ringIsOpen \<and> pinkyIsOpen) \<and>
          \<not> (\<not> indexIsOpen \<and> \<not> middleIsOpen \<and> \<not> ringIsOpen \<and> \<not> pinkyIsOpen) \<longrightarrow>
            detectGesture landmarks = Some NONE)"
  unfolding indexIsOpen_def middleIsOpen_def ringIsOpen_def pinkyIsOpen_def thumbUp_def
  by (simp add: detectGesture_frame[OF frame])

theorem detectGesture_classifies_witness:
  "length open_palm_frame = 21 \<and> detectGesture open_palm_frame = Some Open_Palm \<and>
   length thumb_up_frame = 21 \<and> detectGesture thumb_up_frame = Some Thumb_Up \<and>
   length fist_frame = 21 \<and> detectGesture fist_frame = Some Closed_Fist \<and>
   length pointing_frame = 21 \<and> detectGesture pointing_frame = Some NONE"
  using detectGesture_classifies[of open_palm_frame] detectGesture_classifies[of thumb_up_frame]
    detectGesture_classifies[of fist_frame] detectGesture_classifies[of pointing_frame]
  by (simp add: frame_defs)

text \<open>
  C10. Two frames of 21 landmarks with the same \<open>y\<close> at the landmarks 3, 4, 6, 8, 10, 12,
  14, 16, 18 and 20 get the same result: no \<open>x\<close>, the thumb comparison on \<open>x\<close> included,
  and no other \<open>y\<close> has a part in it.
\<close>

theorem detectGesture_reads_ten_y:
  assumes "length f = 21" and "length g = 21"
    and "\<forall>i \<in> {3, 4, 6, 8, 10, 12, 14, 16, 18, 20}. lm_y (f ! i) = lm_y (g ! i)"
  shows "detectGesture f = detectGesture g"
  using assms by (simp add: detectGesture_frame)

theorem detectGesture_reads_ten_y_witness:
  "length thumb_up_frame = 21 \<and> length thumb_up_shifted_frame = 21 \<and>
   list_all (\<lambda>i. lm_y (thumb_up_frame ! i) = lm_y (thumb_up_shifted_frame ! i))
     [3, 4, 6, 8, 10, 12, 14, 16, 18, 20] \<and>
   \<not> js_lt (lm_x (thumb_up_frame ! 4)) (lm_x (thumb_up_frame ! 3)) \<and>
   js_lt (lm_x (thumb_up_shifted_frame ! 4)) (lm_x (thumb_up_shifted_frame ! 3)) \<and>
   lm_y (thumb_up_frame ! 0) \<noteq> lm_y (thumb_up_shifted_frame ! 0) \<and>
   detectGesture thumb_up_frame = detectGesture thumb_up_shifted_frame"
proof -
  have len: "length thumb_up_frame = 21" "length thumb_up_shifted_frame = 21"
    by (simp_all add: frame_defs thumb_up_shifted_frame_def)
  have agree: "\<forall>i \<in> {3, 4, 6, 8, 10, 12, 14, 16, 18, 20}.
      lm_y (thumb_up_frame ! i) = lm_y (thumb_up_shifted_frame ! i)"
    by (simp add: frame_defs thumb_up_shifted_frame_def)
  have same: "detectGesture thumb_up_frame = detectGesture thumb_up_shifted_frame"
    using len agree by (rule detectGesture_reads_ten_y)
  show ?thesis
    using len same by (simp add: frame_defs thumb_up_shifted_frame_def)
qed


section \<open>The emission gate\<close>

text \<open>
  C3. For a gesture other than \<^verbatim>\<open>NONE\<close>, \<^verbatim>\<open>updateGestureUI\<close> lets the gesture through
  exactly when more than 2000 ms have passed since \<open>lastGestureTime\<close> and the gesture
  differs from \<open>lastGesture\<close>. Then it stores the gesture and the time, and hands the
  gesture to the room when there is a room and the session is connected. In every other
  case it changes nothing and sends nothing.
\<close>

theorem updateGestureUI_gate:
  assumes "s \<noteq> NONE"
  shows "(now - lastGestureTime st > 2000 \<and> s \<noteq> lastGesture st \<longrightarrow>
            fst (updateGestureUI st s now) = st\<lparr>lastGesture := s, lastGestureTime := now\<rparr> \<and>
            (\<forall>r. room st = Some r \<and> isConnected st \<longrightarrow>
               snd (updateGestureUI st s now) =
                 [PublishData r (TextEncoder_encode (gesture_text s)) ''gesture'',
                  AddLog (lit ''Gesture Sent: '' @ gesture_text s) ''system'']) \<and>
            (room st = None \<or> \<not> isConnected st \<longrightarrow> snd (updateGestureUI st s now) = [])) \<and>
         (\<not> (now - lastGestureTime st > 2000 \<and> s \<noteq> lastGesture st) \<longrightarrow>
            updateGestureUI st s now = (st, []))"
  by (auto simp: updateGestureUI_def split: option.splits)

theorem updateGestureUI_gate_witness:
  "Open_Palm \<noteq> NONE \<and>
   (5000::int) - lastGestureTime (fst (run initial_state (connect_ok []))) > 2000 \<and>
   Open_Palm \<noteq> lastGesture (fst (run initial_state (connect_ok []))) \<and>
   room (fst (run initial_state (connect_ok []))) = Some 0 \<and>
   isConnected (fst (run initial_state (connect_ok []))) \<and>
   updateGestureUI (fst (run initial_state (connect_ok []))) Open_Palm 5000 =
     ((fst (run initial_state (connect_ok [])))\<lparr>lastGesture := Open_Palm, lastGestureTime := 5000\<rparr>,
      [PublishData 0 (TextEncoder_encode (gesture_text Open_Palm)) ''gesture'',
       AddLog (lit ''Gesture Sent: '' @ gesture_text Open_Palm) ''system'']) \<and>
   \<not> ((1500::int) - lastGestureTime initial_state > 2000 \<and> Thumb_Up \<noteq> lastGesture initial_state) \<and>
   updateGestureUI initial_state Thumb_Up 1500 = (initial_state, [])"
proof -
  define st where "st = fst (run initial_state (connect_ok []))"
  have pre: "5000 - lastGestureTime st > 2000" "Open_Palm \<noteq> lastGesture st"
    "room st = Some 0" "isConnected st"
    by (simp_all add: st_def script_defs)
  have early: "\<not> (1500 - lastGestureTime initial_state > 2000 \<and> Thumb_Up \<noteq> lastGesture initial_state)"
    by (simp add: initial_state_def)
  from updateGestureUI_gate[of Open_Palm 5000 st] pre
  have "fst (updateGestureUI st Open_Palm 5000) = st\<lparr>lastGesture := Open_Palm, lastGestureTime := 5000\<rparr>"
    and "snd (updateGestureUI st Open_Palm 5000) =
       [PublishData 0 (TextEncoder_encode (gesture_text Open_Palm)) ''gesture'',
        AddLog (lit ''Gesture Sent: '' @ gesture_text Open_Palm) ''system'']"
    by simp_all
  then have emit: "updateGestureUI st Open_Palm 5000 =
     (st\<lparr>lastGesture := Open_Palm, lastGestureTime := 5000\<rparr>,
      [PublishData 0 (TextEncoder_encode (gesture_text Open_Palm)) ''gesture'',
       AddLog (lit ''Gesture Sent: '' @ gesture_text Open_Palm) ''system''])"
    by (simp add: prod_eq_iff)
  from updateGestureUI_gate[of Thumb_Up 1500 initial_state] early
  have drop: "updateGestureUI initial_state Thumb_Up 1500 = (initial_state, [])"
    by simp
  from pre early emit drop show ?thesis
    unfolding st_def by simp
qed

text \<open>
  C4, as stated, fails: in a connected session an open palm at 5000 ms is sent, and a fist
  10 ms later is dropped, the state staying as the open palm left it.
\<close>

theorem distinct_symbol_10ms_counterexample:
  "snd (updateGestureUI (fst (run initial_state (connect_ok []))) Open_Palm 5000) =
     [PublishData 0 (TextEncoder_encode (gesture_text Open_Palm)) ''gesture'',
      AddLog (lit ''Gesture Sent: '' @ gesture_text Open_Palm) ''system''] \<and>
   updateGestureUI (fst (updateGestureUI (fst (run initial_state (connect_ok []))) Open_Palm 5000))
       Closed_Fist 5010 =
     (fst (updateGestureUI (fst (run initial_state (connect_ok []))) Open_Palm 5000), [])"
  by (simp add: script_defs)

text \<open>
  C4, amended. Of two different gestures, the first passing the gate at \<open>now\<close>, the second
  is dropped when it comes at most 2000 ms later (10 ms for one), and passes when it comes
  more than 2000 ms later: a new symbol does not open the time gate.
\<close>

theorem distinct_symbol_within_window:
  assumes "s1 \<noteq> NONE" and "s2 \<noteq> NONE" and "s1 \<noteq> s2"
    and "now - lastGestureTime st > 2000" and "s1 \<noteq> lastGesture st"
  shows "lastGesture (fst (updateGestureUI st s1 now)) = s1 \<and>
         lastGestureTime (fst (updateGestureUI st s1 now)) = now \<and>
         (d \<le> 2000 \<longrightarrow>
            updateGestureUI (fst (updateGestureUI st s1 now)) s2 (now + d) =
              (fst (updateGestureUI st s1 now), [])) \<and>
         (2000 < d \<longrightarrow>
            fst (updateGestureUI (fst (updateGestureUI st s1 now)) s2 (now + d)) =
              (fst (updateGestureUI st s1 now))\<lparr>lastGesture := s2, lastGestureTime := now + d\<rparr>)"
  using assms by (simp add: updateGestureUI_def)

theorem distinct_symbol_within_window_witness:
  "Open_Palm \<noteq> NONE \<and> Closed_Fist \<noteq> NONE \<and> Open_Palm \<noteq> Closed_Fist \<and>
   (5000::int) - lastGestureTime initial_state > 2000 \<and> Open_Palm \<noteq> lastGesture initial_state \<and>
   (10::int) \<le> 2000 \<and>
   lastGesture (fst (updateGestureUI initial_state Open_Palm 5000)) = Open_Palm \<and>
   lastGestureTime (fst (updateGestureUI initial_state Open_Palm 5000)) = 5000 \<and>
   updateGestureUI (fst (updateGestureUI initial_state Open_Palm 5000)) Closed_Fist (5000 + 10) =
     (fst (updateGestureUI initial_state Open_Palm 5000), []) \<and>
   (2000::int) < 2001 \<and>
   fst (updateGestureUI (fst (updateGestureUI initial_state Open_Palm 5000)) Closed_Fist (5000 + 2001)) =
     (fst (updateGestureUI initial_state Open_Palm 5000))
       \<lparr>lastGesture := Closed_Fist, lastGestureTime := 5000 + 2001\<rparr>"
proof -
  have pre: "(5000::int) - lastGestureTime initial_state > 2000" "Open_Palm \<noteq> lastGesture initial_state"
    by (simp_all add: initial_state_def)
  from distinct_symbol_within_window[of Open_Palm Closed_Fist 5000 initial_state 10]
    distinct_symbol_within_window[of Open_Palm Closed_Fist 5000 initial_state 2001] pre
  show ?thesis by simp
qed


section \<open>Gesture state and session state\<close>

text \<open>No handler but \<^verbatim>\<open>onResults\<close> writes \<open>lastGesture\<close> or \<open>lastGestureTime\<close>.\<close>

lemma after_connect_gesture_state:
  "lastGesture (fst (after_connect (st, out, t))) = lastGesture st \<and>
   lastGestureTime (fst (after_connect (st, out, t))) = lastGestureTime st"
  by (cases t) (simp_all add: suspend_def)

lemma connectToLiveKit_resume_gesture_state:
  assumes "connectToLiveKit_resume st t out = Some (st1, eff, next)"
  shows "lastGesture st1 = lastGesture st \<and> lastGestureTime st1 = lastGestureTime st"
  using assms by (cases t; cases out) (auto split: if_splits option.splits)

lemma resume_task_gesture_state:
  assumes "resume_task st t out = Some (st1, eff)"
  shows "lastGesture st1 = lastGesture st \<and> lastGestureTime st1 = lastGestureTime st"
proof (cases "t = Await_mic_toggle \<or> t = Await_publish")
  case True
  with assms show ?thesis by (cases out) auto
next
  case False
  then have "resume_task st t out = map_option after_connect (connectToLiveKit_resume st t out)"
    by (cases t) simp_all
  with assms obtain res where r: "connectToLiveKit_resume st t out = Some res"
    and a: "after_connect res = (st1, eff)"
    by auto
  obtain st2 eff2 nxt where res: "res = (st2, eff2, nxt)" by (cases res)
  from r res have "lastGesture st2 = lastGesture st \<and> lastGestureTime st2 = lastGestureTime st"
    using connectToLiveKit_resume_gesture_state by blast
  moreover from a res have "st1 = fst (after_connect (st2, eff2, nxt))" by simp
  ultimately show ?thesis by (simp add: after_connect_gesture_state)
qed

lemma settle_gesture_state:
  "lastGesture (fst (settle st k out)) = lastGesture st \<and>
   lastGestureTime (fst (settle st k out)) = lastGestureTime st"
proof (cases "k < length (pending st)")
  case False
  then show ?thesis by (simp add: settle_def)
next
  case True
  let ?st0 = "st\<lparr>pending := take k (pending st) @ drop (Suc k) (pending st)\<rparr>"
  show ?thesis
  proof (cases "resume_task ?st0 (pending st ! k) out")
    case None
    with True show ?thesis by (simp add: settle_def)
  next
    case (Some res)
    obtain st1 eff where res: "res = (st1, eff)" by (cases res)
    with Some have "lastGesture st1 = lastGesture ?st0 \<and> lastGestureTime st1 = lastGestureTime ?st0"
      using resume_task_gesture_state by blast
    with True Some res show ?thesis by (simp add: settle_def)
  qed
qed

lemma step_gesture_state:
  assumes "\<not> delivers_hands e"
  shows "lastGesture (fst (step st e)) = lastGesture st \<and>
         lastGestureTime (fst (step st e)) = lastGestureTime st"
proof (cases e)
  case Click_connect
  then show ?thesis
    by (simp add: connectBtn_click_def connectToLiveKit_def suspend_def)
next
  case Click_mic
  then show ?thesis by (simp add: micBtn_click_def suspend_def split: option.splits)
next
  case Click_send
  then show ?thesis by (simp add: sendChatMessage_def suspend_def Let_def split: option.splits)
next
  case (Keypress key)
  then show ?thesis
    by (simp add: chatInput_keypress_def sendChatMessage_def suspend_def Let_def split: option.splits)
next
  case (Input val)
  then show ?thesis by simp
next
  case (Results hs)
  with assms show ?thesis by simp
next
  case (Settle k out)
  then show ?thesis by (simp add: settle_gesture_state)
qed

lemma run_gesture_state:
  assumes "list_all (\<lambda>e. \<not> delivers_hands e) evs"
  shows "lastGesture (fst (run st evs)) = lastGesture st \<and>
         lastGestureTime (fst (run st evs)) = lastGestureTime st"
  using assms
proof (induction evs arbitrary: st)
  case Nil
  then show ?case by simp
next
  case (Cons e evs)
  obtain st1 out1 where s: "step st e = (st1, out1)" by (cases "step st e")
  from Cons.prems have e: "\<not> delivers_hands e" and rest: "list_all (\<lambda>e. \<not> delivers_hands e) evs"
    by simp_all
  from step_gesture_state[OF e, of st] s
  have "lastGesture st1 = lastGesture st \<and> lastGestureTime st1 = lastGestureTime st" by simp
  moreover from Cons.IH[OF rest, of st1]
  have "lastGesture (fst (run st1 evs)) = lastGesture st1 \<and>
        lastGestureTime (fst (run st1 evs)) = lastGestureTime st1" .
  moreover have "fst (run st (e # evs)) = fst (run st1 evs)"
    using s by (simp split: prod.splits)
  ultimately show ?case by simp
qed


text \<open>The gesture path sends to the room only while \<open>isConnected\<close> holds.\<close>

lemma updateGestureUI_publishes_connected:
  "PublishData r msg tp \<in> set (snd (updateGestureUI st s now)) \<Longrightarrow> isConnected st \<and> room st = Some r"
  by (auto simp: updateGestureUI_def split: if_splits option.splits)

text \<open>
  C9. A gesture that passes the gate while \<open>isConnected\<close> is false is stored with its time
  although nothing is sent. After any events that deliver no hands, a connection among
  them or not, the same gesture is dropped at whatever time it comes again.
\<close>

theorem gesture_while_disconnected:
  assumes "\<not> isConnected st" and "s \<noteq> NONE"
    and "now - lastGestureTime st > 2000" and "s \<noteq> lastGesture st"
    and "list_all (\<lambda>e. \<not> delivers_hands e) evs"
  shows "snd (updateGestureUI st s now) = [] \<and>
         lastGesture (fst (updateGestureUI st s now)) = s \<and>
         lastGestureTime (fst (updateGestureUI st s now)) = now \<and>
         updateGestureUI (fst (run (fst (updateGestureUI st s now)) evs)) s later =
           (fst (run (fst (updateGestureUI st s now)) evs), [])"
proof -
  define st1 where "st1 = fst (updateGestureUI st s now)"
  have a: "snd (updateGestureUI st s now) = []" "lastGesture st1 = s" "lastGestureTime st1 = now"
    using assms(1,3,4) by (simp_all add: st1_def updateGestureUI_def split: option.splits)
  from run_gesture_state[OF assms(5), of st1] a
  have "lastGesture (fst (run st1 evs)) = s" by simp
  then have "updateGestureUI (fst (run st1 evs)) s later = (fst (run st1 evs), [])"
    by (simp add: updateGestureUI_def)
  with a show ?thesis unfolding st1_def by simp
qed

theorem gesture_while_disconnected_witness:
  "\<not> isConnected initial_state \<and> Open_Palm \<noteq> NONE \<and>
   (5000::int) - lastGestureTime initial_state > 2000 \<and> Open_Palm \<noteq> lastGesture initial_state \<and>
   list_all (\<lambda>e. \<not> delivers_hands e) (connect_ok []) \<and>
   snd (updateGestureUI initial_state Open_Palm 5000) = [] \<and>
   isConnected (fst (run (fst (updateGestureUI initial_state Open_Palm 5000)) (connect_ok []))) \<and>
   updateGestureUI (fst (run (fst (updateGestureUI initial_state Open_Palm 5000)) (connect_ok [])))
       Open_Palm 9000 =
     (fst (run (fst (updateGestureUI initial_state Open_Palm 5000)) (connect_ok [])), []) \<and>
   snd (updateGestureUI (fst (run initial_state (connect_ok []))) Open_Palm 9000) =
     [PublishData 0 (TextEncoder_encode (gesture_text Open_Palm)) ''gesture'',
      AddLog (lit ''Gesture Sent: '' @ gesture_text Open_Palm) ''system'']"
proof -
  have pre: "\<not> isConnected initial_state" "Open_Palm \<noteq> NONE"
    "(5000::int) - lastGestureTime initial_state > 2000" "Open_Palm \<noteq> lastGesture initial_state"
    by (simp_all add: initial_state_def)
  have evs: "list_all (\<lambda>e. \<not> delivers_hands e) (connect_ok [])"
    by (simp add: connect_ok_def)
  note main = gesture_while_disconnected[OF pre evs, of 9000]
  have conn: "isConnected (fst (run (fst (updateGestureUI initial_state Open_Palm 5000)) (connect_ok [])))"
    by (simp add: script_defs)
  have other: "snd (updateGestureUI (fst (run initial_state (connect_ok []))) Open_Palm 9000) =
     [PublishData 0 (TextEncoder_encode (gesture_text Open_Palm)) ''gesture'',
      AddLog (lit ''Gesture Sent: '' @ gesture_text Open_Palm) ''system'']"
    by (simp add: script_defs)
  from pre evs main conn other show ?thesis by simp
qed


section \<open>Several hands in one result\<close>

text \<open>
  The loop itself goes through the whole list: a list \<open>hs1 @ hs2\<close> is handled as \<open>hs1\<close>
  and then, from the state \<open>hs1\<close> left, \<open>hs2\<close>, unless an exception ended the loop in
  \<open>hs1\<close>.
\<close>

lemma for_each_hand_append:
  "for_each_hand st (hs1 @ hs2) =
     (case for_each_hand st hs1 of
        (st1, out1, finished) \<Rightarrow>
          if finished then
            (case for_each_hand st1 hs2 of (st2, out2, fin2) \<Rightarrow> (st2, out1 @ out2, fin2))
          else (st1, out1, False))"
proof (induction hs1 arbitrary: st)
  case Nil
  then show ?case by (simp split: prod.splits)
next
  case (Cons h hs1)
  obtain landmarks now where h: "h = (landmarks, now)" by (cases h)
  show ?case
  proof (cases "detectGesture landmarks")
    case None
    with h show ?thesis by simp
  next
    case (Some g)
    obtain st1 out1 where u: "(if g \<noteq> NONE then updateGestureUI st g now else (st, [])) = (st1, out1)"
      by (cases "if g \<noteq> NONE then updateGestureUI st g now else (st, [])")
    from h Some u Cons.IH[of st1] show ?thesis
      by (simp split: prod.splits if_splits)
  qed
qed




section \<open>Connect requests\<close>

lemma run_append:
  "run st (xs @ ys) =
     (fst (run (fst (run st xs)) ys), snd (run st xs) @ snd (run (fst (run st xs)) ys))"
  by (induction xs arbitrary: st) (simp_all split: prod.splits)

lemma connect_clicks:
  assumes "\<not> isConnected st"
  shows "run st (replicate n Click_connect) =
     (st\<lparr>pending := pending st @ replicate n Await_fetch\<rparr>,
      concat (replicate n [AddLog (lit ''Requesting access token...'') ''system'', Fetch_token]))"
  using assms
proof (induction n arbitrary: st)
  case 0
  then show ?case by simp
next
  case (Suc n)
  have s: "step st Click_connect =
      (suspend st Await_fetch, [AddLog (lit ''Requesting access token...'') ''system'', Fetch_token])"
    using Suc.prems by (simp add: connectBtn_click_def connectToLiveKit_def)
  have c: "\<not> isConnected (suspend st Await_fetch)"
    using Suc.prems by (simp add: suspend_def)
  have p: "pending (suspend st Await_fetch) @ replicate n Await_fetch
      = pending st @ replicate (Suc n) Await_fetch"
    by (simp add: suspend_def)
  from Suc.IH[OF c] s p show ?case
    by (simp add: suspend_def)
qed

text \<open>
  A token request that is answered well goes on to read the body, and a body that is read
  makes a Room object no attempt has made before and starts to connect it; neither step
  looks at \<open>isConnected\<close> or at the other pending attempts.
\<close>

lemma settle_fetch_ok:
  assumes "k < length (pending st)" and "pending st ! k = Await_fetch"
  shows "settle st k (Fulfilled_response True) =
     (st\<lparr>pending := take k (pending st) @ drop (Suc k) (pending st) @ [Await_json]\<rparr>, [])"
  using assms by (simp add: settle_def suspend_def)

lemma settle_json_ok:
  assumes "k < length (pending st)" and "pending st ! k = Await_json"
  shows "settle st k (Fulfilled_json token) =
     (st\<lparr>room := Some (roomsCreated st), roomsCreated := Suc (roomsCreated st),
         pending := take k (pending st) @ drop (Suc k) (pending st) @ [Await_connect]\<rparr>,
      [AddLog (lit ''Token acquired. Connecting to LiveKit...'') ''system'',
       New_Room (roomsCreated st), Room_connect (roomsCreated st) token])"
  using assms by (simp add: settle_def suspend_def)

lemma responses_ok:
  assumes "pending st = replicate m Await_fetch @ replicate j Await_json"
  shows "run st (replicate m (Settle 0 (Fulfilled_response True))) =
     (st\<lparr>pending := replicate (m + j) Await_json\<rparr>, [])"
  using assms
proof (induction m arbitrary: st j)
  case 0
  then show ?case by simp
next
  case (Suc m)
  from Suc.prems have k: "0 < length (pending st)" "pending st ! 0 = Await_fetch"
    by simp_all
  define st1 where "st1 = st\<lparr>pending := replicate m Await_fetch @ replicate (Suc j) Await_json\<rparr>"
  have s: "step st (Settle 0 (Fulfilled_response True)) = (st1, [])"
    using settle_fetch_ok[OF k] Suc.prems
    by (simp add: st1_def replicate_append_same)
  have "pending st1 = replicate m Await_fetch @ replicate (Suc j) Await_json"
    by (simp add: st1_def)
  from Suc.IH[OF this] have "run st1 (replicate m (Settle 0 (Fulfilled_response True))) =
     (st1\<lparr>pending := replicate (m + Suc j) Await_json\<rparr>, [])" .
  with s show ?case by (simp add: st1_def)
qed

lemma bodies_ok:
  assumes "pending st = replicate (length tokens) Await_json @ replicate j Await_connect"
  shows "run st (map (\<lambda>t. Settle 0 (Fulfilled_json t)) tokens) =
     (st\<lparr>room := (if tokens = [] then room st
                    else Some (roomsCreated st + length tokens - 1)),
         roomsCreated := roomsCreated st + length tokens,
         pending := replicate (length tokens + j) Await_connect\<rparr>,
      concat (map (\<lambda>(i, t).
          [AddLog (lit ''Token acquired. Connecting to LiveKit...'') ''system'',
           New_Room i, Room_connect i t])
        (enumerate (roomsCreated st) tokens)))"
  using assms
proof (induction tokens arbitrary: st j)
  case Nil
  then show ?case by simp
next
  case (Cons t ts)
  from Cons.prems have k: "0 < length (pending st)" "pending st ! 0 = Await_json"
    by simp_all
  define st1 where "st1 = st\<lparr>room := Some (roomsCreated st), roomsCreated := Suc (roomsCreated st),
     pending := replicate (length ts) Await_json @ replicate (Suc j) Await_connect\<rparr>"
  have s: "step st (Settle 0 (Fulfilled_json t)) =
     (st1, [AddLog (lit ''Token acquired. Connecting to LiveKit...'') ''system'',
            New_Room (roomsCreated st), Room_connect (roomsCreated st) t])"
    using settle_json_ok[OF k, of t] Cons.prems
    by (simp add: st1_def replicate_append_same)
  have "pending st1 = replicate (length ts) Await_json @ replicate (Suc j) Await_connect"
    by (simp add: st1_def)
  note ih = Cons.IH[OF this]
  show ?case
    using s ih by (cases "ts = []") (simp_all add: st1_def)
qed

text \<open>
  C2, as stated, fails: after one click on the connect button the token request is pending
  and \<open>isConnected\<close> is still false; a second click changes the state and starts a second
  token request, and when both requests succeed two rooms are made and connected.
\<close>

theorem second_connect_counterexample:
  "pending (fst (step initial_state Click_connect)) = [Await_fetch] \<and>
   isConnected (fst (step initial_state Click_connect)) = False \<and>
   step (fst (step initial_state Click_connect)) Click_connect =
     ((fst (step initial_state Click_connect))\<lparr>pending := [Await_fetch, Await_fetch]\<rparr>,
      [AddLog (lit ''Requesting access token...'') ''system'', Fetch_token]) \<and>
   count_list (snd (run initial_state
      [Click_connect, Click_connect,
       Settle 0 (Fulfilled_response True), Settle 0 (Fulfilled_response True),
       Settle 0 (Fulfilled_json (lit ''t1'')), Settle 0 (Fulfilled_json (lit ''t2''))])) Fetch_token = 2 \<and>
   filter (\<lambda>e. e = Room_connect 0 (lit ''t1'') \<or> e = Room_connect 1 (lit ''t2''))
     (snd (run initial_state
      [Click_connect, Click_connect,
       Settle 0 (Fulfilled_response True), Settle 0 (Fulfilled_response True),
       Settle 0 (Fulfilled_json (lit ''t1'')), Settle 0 (Fulfilled_json (lit ''t2''))])) =
     [Room_connect 0 (lit ''t1''), Room_connect 1 (lit ''t2'')]"
  by (simp add: script_defs)

text \<open>
  C2, amended. \<^verbatim>\<open>connectToLiveKit\<close> returns at once, with no effect, only when
  \<open>isConnected\<close> is true. While it is false, earlier attempts pending or not, every click
  on the connect button starts a token request of its own and leaves \<open>isConnected\<close>
  false: \<open>n\<close> clicks, \<open>n\<close> requests. When the \<open>n\<close> requests of a page with nothing else
  pending are then answered well and their bodies read, each attempt makes a Room object
  of its own and starts a transport connection on it with its own token: \<open>n\<close> rooms,
  \<open>n\<close> connection attempts, \<open>isConnected\<close> still false.
\<close>

theorem connect_guard_reads_isConnected:
  "(isConnected st \<longrightarrow> connectToLiveKit st = (st, [], None)) \<and>
   (\<not> isConnected st \<longrightarrow>
      run st (replicate n Click_connect) =
        (st\<lparr>pending := pending st @ replicate n Await_fetch\<rparr>,
         concat (replicate n [AddLog (lit ''Requesting access token...'') ''system'', Fetch_token]))) \<and>
   (\<not> isConnected st \<and> pending st = [] \<and> length tokens = n \<longrightarrow>
      run st (replicate n Click_connect
              @ replicate n (Settle 0 (Fulfilled_response True))
              @ map (\<lambda>t. Settle 0 (Fulfilled_json t)) tokens) =
        (st\<lparr>room := (if tokens = [] then room st else Some (roomsCreated st + n - 1)),
            roomsCreated := roomsCreated st + n,
            pending := replicate n Await_connect\<rparr>,
         concat (replicate n [AddLog (lit ''Requesting access token...'') ''system'', Fetch_token])
         @ concat (map (\<lambda>(i, t).
               [AddLog (lit ''Token acquired. Connecting to LiveKit...'') ''system'',
                New_Room i, Room_connect i t])
             (enumerate (roomsCreated st) tokens))))"
proof -
  have whole: "run st (replicate n Click_connect
              @ replicate n (Settle 0 (Fulfilled_response True))
              @ map (\<lambda>t. Settle 0 (Fulfilled_json t)) tokens) =
        (st\<lparr>room := (if tokens = [] then room st else Some (roomsCreated st + n - 1)),
            roomsCreated := roomsCreated st + n,
            pending := replicate n Await_connect\<rparr>,
         concat (replicate n [AddLog (lit ''Requesting access token...'') ''system'', Fetch_token])
         @ concat (map (\<lambda>(i, t).
               [AddLog (lit ''Token acquired. Connecting to LiveKit...'') ''system'',
                New_Room i, Room_connect i t])
             (enumerate (roomsCreated st) tokens)))"
    if off: "\<not> isConnected st" and idle: "pending st = []" and len: "length tokens = n"
  proof -
    define st1 where "st1 = st\<lparr>pending := replicate n Await_fetch\<rparr>"
    define st2 where "st2 = st\<lparr>pending := replicate n Await_json\<rparr>"
    have a: "run st (replicate n Click_connect) =
        (st1, concat (replicate n [AddLog (lit ''Requesting access token...'') ''system'', Fetch_token]))"
      using connect_clicks[OF off, of n] idle by (simp add: st1_def)
    have "pending st1 = replicate n Await_fetch @ replicate 0 Await_json"
      by (simp add: st1_def)
    from responses_ok[OF this]
    have b: "run st1 (replicate n (Settle 0 (Fulfilled_response True))) = (st2, [])"
      by (simp add: st1_def st2_def)
    have "pending st2 = replicate (length tokens) Await_json @ replicate 0 Await_connect"
      by (simp add: st2_def len)
    from bodies_ok[OF this]
    have c: "run st2 (map (\<lambda>t. Settle 0 (Fulfilled_json t)) tokens) =
        (st\<lparr>room := (if tokens = [] then room st else Some (roomsCreated st + n - 1)),
            roomsCreated := roomsCreated st + n,
            pending := replicate n Await_connect\<rparr>,
         concat (map (\<lambda>(i, t).
               [AddLog (lit ''Token acquired. Connecting to LiveKit...'') ''system'',
                New_Room i, Room_connect i t])
             (enumerate (roomsCreated st) tokens)))"
      by (simp add: st2_def len)
    have "run st1 (replicate n (Settle 0 (Fulfilled_response True))
              @ map (\<lambda>t. Settle 0 (Fulfilled_json t)) tokens) =
        (fst (run st2 (map (\<lambda>t. Settle 0 (Fulfilled_json t)) tokens)),
         snd (run st2 (map (\<lambda>t. Settle 0 (Fulfilled_json t)) tokens)))"
      by (subst run_append) (simp add: b)
    then have d: "run st1 (replicate n (Settle 0 (Fulfilled_response True))
              @ map (\<lambda>t. Settle 0 (Fulfilled_json t)) tokens) =
        run st2 (map (\<lambda>t. Settle 0 (Fulfilled_json t)) tokens)"
      by simp
    show ?thesis
      by (subst run_append) (simp add: a d c)
  qed
  show ?thesis
    using whole by (simp add: connect_clicks connectToLiveKit_def)
qed

theorem connect_guard_reads_isConnected_witness:
  "isConnected (fst (run initial_state (connect_ok []))) \<and>
   connectToLiveKit (fst (run initial_state (connect_ok []))) =
     (fst (run initial_state (connect_ok [])), [], None) \<and>
   \<not> isConnected initial_state \<and> pending initial_state = [] \<and>
   length [lit ''t1'', lit ''t2''] = 2 \<and>
   run initial_state (replicate 2 Click_connect) =
     (initial_state\<lparr>pending := [Await_fetch, Await_fetch]\<rparr>,
      [AddLog (lit ''Requesting access token...'') ''system'', Fetch_token,
       AddLog (lit ''Requesting access token...'') ''system'', Fetch_token]) \<and>
   run initial_state (replicate 2 Click_connect
        @ replicate 2 (Settle 0 (Fulfilled_response True))
        @ map (\<lambda>t. Settle 0 (Fulfilled_json t)) [lit ''t1'', lit ''t2'']) =
     (initial_state\<lparr>room := Some 1, roomsCreated := 2, pending := [Await_connect, Await_connect]\<rparr>,
      [AddLog (lit ''Requesting access token...'') ''system'', Fetch_token,
       AddLog (lit ''Requesting access token...'') ''system'', Fetch_token,
       AddLog (lit ''Token acquired. Connecting to LiveKit...'') ''system'',
       New_Room 0, Room_connect 0 (lit ''t1''),
       AddLog (lit ''Token acquired. Connecting to LiveKit...'') ''system'',
       New_Room 1, Room_connect 1 (lit ''t2'')])"
proof -
  have a: "isConnected (fst (run initial_state (connect_ok [])))"
    by (simp add: script_defs)
  have b: "\<not> isConnected initial_state" "pending initial_state = []"
    "length [lit ''t1'', lit ''t2''] = 2"
    by (simp_all add: initial_state_def)
  from connect_guard_reads_isConnected[of "fst (run initial_state (connect_ok []))"] a
  have c: "connectToLiveKit (fst (run initial_state (connect_ok []))) =
     (fst (run initial_state (connect_ok [])), [], None)"
    by blast
  from connect_guard_reads_isConnected[of initial_state 2] b
  have "run initial_state (replicate 2 Click_connect) =
        (initial_state\<lparr>pending := pending initial_state @ replicate 2 Await_fetch\<rparr>,
         concat (replicate 2 [AddLog (lit ''Requesting access token...'') ''system'', Fetch_token]))"
    by blast
  then have d: "run initial_state (replicate 2 Click_connect) =
     (initial_state\<lparr>pending := [Await_fetch, Await_fetch]\<rparr>,
      [AddLog (lit ''Requesting access token...'') ''system'', Fetch_token,
       AddLog (lit ''Requesting access token...'') ''system'', Fetch_token])"
    by (simp add: initial_state_def numeral_2_eq_2)
  from connect_guard_reads_isConnected[of initial_state 2 "[lit ''t1'', lit ''t2'']"] b
  have "run initial_state (replicate 2 Click_connect
        @ replicate 2 (Settle 0 (Fulfilled_response True))
        @ map (\<lambda>t. Settle 0 (Fulfilled_json t)) [lit ''t1'', lit ''t2'']) =
        (initial_state\<lparr>room := (if [lit ''t1'', lit ''t2''] = [] then room initial_state
                                else Some (roomsCreated initial_state + 2 - 1)),
            roomsCreated := roomsCreated initial_state + 2,
            pending := replicate 2 Await_connect\<rparr>,
         concat (replicate 2 [AddLog (lit ''Requesting access token...'') ''system'', Fetch_token])
         @ concat (map (\<lambda>(i, t).
               [AddLog (lit ''Token acquired. Connecting to LiveKit...'') ''system'',
                New_Room i, Room_connect i t])
             (enumerate (roomsCreated initial_state) [lit ''t1'', lit ''t2''])))"
    by blast
  then have e: "run initial_state (replicate 2 Click_connect
        @ replicate 2 (Settle 0 (Fulfilled_response True))
        @ map (\<lambda>t. Settle 0 (Fulfilled_json t)) [lit ''t1'', lit ''t2'']) =
     (initial_state\<lparr>room := Some 1, roomsCreated := 2, pending := [Await_connect, Await_connect]\<rparr>,
      [AddLog (lit ''Requesting access token...'') ''system'', Fetch_token,
       AddLog (lit ''Requesting access token...'') ''system'', Fetch_token,
       AddLog (lit ''Token acquired. Connecting to LiveKit...'') ''system'',
       New_Room 0, Room_connect 0 (lit ''t1''),
       AddLog (lit ''Token acquired. Connecting to LiveKit...'') ''system'',
       New_Room 1, Room_connect 1 (lit ''t2'')])"
    by (simp add: initial_state_def numeral_2_eq_2)
  from a b c d e show ?thesis by blast
qed


section \<open>The encoder\<close>

lemma scalar_values_Nil_iff: "scalar_values s = [] \<longleftrightarrow> s = []"
  by (induction s rule: scalar_values.induct) simp_all

lemma utf8_not_Nil: "utf8 cp \<noteq> []"
  by (simp add: utf8_def)

lemma TextEncoder_encode_Nil_iff: "TextEncoder_encode s = [] \<longleftrightarrow> s = []"
proof
  assume e: "TextEncoder_encode s = []"
  show "s = []"
  proof (rule ccontr)
    assume "s \<noteq> []"
    then obtain cp cps where "scalar_values s = cp # cps"
      by (cases "scalar_values s") (simp_all add: scalar_values_Nil_iff)
    with e show False
      by (simp add: TextEncoder_encode_def utf8_not_Nil)
  qed
next
  assume "s = []"
  then show "TextEncoder_encode s = []"
    by (simp add: TextEncoder_encode_def)
qed

text \<open>
  ASCII goes through unchanged, U+00E9 takes two bytes, a surrogate alone becomes the three
  bytes of U+FFFD, and the surrogate pair of U+1F600 takes four bytes.
\<close>

lemma TextEncoder_encode_examples:
  "TextEncoder_encode (lit ''hi'') = [0x68, 0x69]"
  "TextEncoder_encode [0xE9] = [0xC3, 0xA9]"
  "TextEncoder_encode [0x68, 0x69, 0xD800] = [0x68, 0x69, 0xEF, 0xBF, 0xBD]"
  "TextEncoder_encode [0xD83D, 0xDE00] = [0xF0, 0x9F, 0x98, 0x80]"
  by (simp_all add: TextEncoder_encode_def utf8_def isHighSurrogate_def isLowSurrogate_def lit_def)

section \<open>Chat input\<close>

lemma sendChatMessage_published:
  assumes "PublishData r data tp \<in> set (snd (sendChatMessage st))"
  shows "data = TextEncoder_encode (trim (chatInput st)) \<and> trim (chatInput st) \<noteq> [] \<and>
         tp = ''chat_message'' \<and> room st = Some r"
  using assms
  by (auto simp: sendChatMessage_def Let_def split: if_splits option.splits)

text \<open>
  C6. \<^verbatim>\<open>sendChatMessage\<close> sends the trimmed input. When the input is empty or holds
  white space only, it returns at once: no log line, no message, nothing pending, the state
  as it was, and no exception. When a room exists and the trimmed input is not empty, it
  logs the trimmed input and publishes its UTF-8 encoding to the topic
  \<^verbatim>\<open>chat_message\<close>. Whatever it publishes is the encoding of the input without its
  leading and trailing white space, a text that is not empty and neither begins nor ends
  with white space, and the bytes are not empty either.
\<close>

theorem sendChatMessage_trims:
  "(list_all isWhiteSpace (chatInput st) \<longrightarrow> sendChatMessage st = (st, [])) \<and>
   (\<forall>r. room st = Some r \<and> trim (chatInput st) \<noteq> [] \<longrightarrow>
      snd (sendChatMessage st) =
        [AddLog (lit ''You: '' @ trim (chatInput st)) ''user'',
         PublishData r (TextEncoder_encode (trim (chatInput st))) ''chat_message'']) \<and>
   (\<forall>r data tp. PublishData r data tp \<in> set (snd (sendChatMessage st)) \<longrightarrow>
      data = TextEncoder_encode (trim (chatInput st)) \<and> data \<noteq> [] \<and> tp = ''chat_message'' \<and>
      trim (chatInput st) \<noteq> [] \<and>
      \<not> isWhiteSpace (hd (trim (chatInput st))) \<and>
      \<not> isWhiteSpace (last (trim (chatInput st))) \<and>
      (\<exists>pre suf. chatInput st = pre @ trim (chatInput st) @ suf \<and>
         list_all isWhiteSpace pre \<and> list_all isWhiteSpace suf))"
proof -
  have blank: "sendChatMessage st = (st, [])" if "list_all isWhiteSpace (chatInput st)"
  proof -
    from that have "trim (chatInput st) = []" by (simp add: trim_eq_Nil)
    then show ?thesis by (simp add: sendChatMessage_def)
  qed
  have sends: "snd (sendChatMessage st) =
        [AddLog (lit ''You: '' @ trim (chatInput st)) ''user'',
         PublishData r (TextEncoder_encode (trim (chatInput st))) ''chat_message'']"
    if "room st = Some r" "trim (chatInput st) \<noteq> []" for r
    using that by (simp add: sendChatMessage_def Let_def)
  have sent: "data = TextEncoder_encode (trim (chatInput st)) \<and> data \<noteq> [] \<and> tp = ''chat_message'' \<and>
      trim (chatInput st) \<noteq> [] \<and>
      \<not> isWhiteSpace (hd (trim (chatInput st))) \<and>
      \<not> isWhiteSpace (last (trim (chatInput st))) \<and>
      (\<exists>pre suf. chatInput st = pre @ trim (chatInput st) @ suf \<and>
         list_all isWhiteSpace pre \<and> list_all isWhiteSpace suf)"
    if "PublishData r data tp \<in> set (snd (sendChatMessage st))" for r data tp
  proof -
    from that have p: "data = TextEncoder_encode (trim (chatInput st))"
      "trim (chatInput st) \<noteq> []" "tp = ''chat_message''"
      using sendChatMessage_published by blast+
    from p(1,2) have d: "data \<noteq> []"
      by (simp add: TextEncoder_encode_Nil_iff)
    from p(2) have e: "\<not> isWhiteSpace (hd (trim (chatInput st)))"
      "\<not> isWhiteSpace (last (trim (chatInput st)))"
      using trim_ends[of "chatInput st"] by simp_all
    have "\<exists>pre suf. chatInput st = pre @ trim (chatInput st) @ suf \<and>
         list_all isWhiteSpace pre \<and> list_all isWhiteSpace suf"
      by (rule trim_decomp)
    with p d e show ?thesis by simp
  qed
  from blank sends sent show ?thesis by blast
qed

theorem sendChatMessage_trims_witness:
  "list_all isWhiteSpace (chatInput (fst (run initial_state (connect_ok [] @ [Input (lit ''   '')])))) \<and>
   sendChatMessage (fst (run initial_state (connect_ok [] @ [Input (lit ''   '')]))) =
     (fst (run initial_state (connect_ok [] @ [Input (lit ''   '')])), []) \<and>
   room (fst (run initial_state (connect_ok [] @ [Input (lit ''  hi '')]))) = Some 0 \<and>
   trim (chatInput (fst (run initial_state (connect_ok [] @ [Input (lit ''  hi '')])))) = lit ''hi'' \<and>
   snd (sendChatMessage (fst (run initial_state (connect_ok [] @ [Input (lit ''  hi '')])))) =
     [AddLog (lit ''You: hi'') ''user'', PublishData 0 [0x68, 0x69] ''chat_message''] \<and>
   room (fst (run initial_state (connect_ok [] @ [Input [0x68, 0x69, 0xD800, 0x20]]))) = Some 0 \<and>
   trim (chatInput (fst (run initial_state (connect_ok [] @ [Input [0x68, 0x69, 0xD800, 0x20]]))))
     = [0x68, 0x69, 0xD800] \<and>
   snd (sendChatMessage (fst (run initial_state (connect_ok [] @ [Input [0x68, 0x69, 0xD800, 0x20]])))) =
     [AddLog (lit ''You: '' @ [0x68, 0x69, 0xD800]) ''user'',
      PublishData 0 [0x68, 0x69, 0xEF, 0xBF, 0xBD] ''chat_message'']"
proof -
  define blank where "blank = fst (run initial_state (connect_ok [] @ [Input (lit ''   '')]))"
  define padded where "padded = fst (run initial_state (connect_ok [] @ [Input (lit ''  hi '')]))"
  define lone where "lone = fst (run initial_state (connect_ok [] @ [Input [0x68, 0x69, 0xD800, 0x20]]))"
  have h1: "list_all isWhiteSpace (chatInput blank)"
    by (simp add: blank_def script_defs)
  have h2: "room padded = Some 0" "trim (chatInput padded) = lit ''hi''"
    by (simp_all add: padded_def script_defs)
  have h3: "room lone = Some 0" "trim (chatInput lone) = [0x68, 0x69, 0xD800]"
    by (simp_all add: lone_def script_defs)
  from sendChatMessage_trims[of blank] h1 have c1: "sendChatMessage blank = (blank, [])"
    by blast
  from h2 have "room padded = Some 0 \<and> trim (chatInput padded) \<noteq> []"
    by (simp add: lit_def)
  with sendChatMessage_trims[of padded]
  have "snd (sendChatMessage padded) =
        [AddLog (lit ''You: '' @ trim (chatInput padded)) ''user'',
         PublishData 0 (TextEncoder_encode (trim (chatInput padded))) ''chat_message'']"
    by blast
  with h2 have c2: "snd (sendChatMessage padded) =
     [AddLog (lit ''You: hi'') ''user'', PublishData 0 [0x68, 0x69] ''chat_message'']"
    by (simp add: TextEncoder_encode_examples) (simp add: lit_def)
  from h3 have "room lone = Some 0 \<and> trim (chatInput lone) \<noteq> []"
    by simp
  with sendChatMessage_trims[of lone]
  have "snd (sendChatMessage lone) =
        [AddLog (lit ''You: '' @ trim (chatInput lone)) ''user'',
         PublishData 0 (TextEncoder_encode (trim (chatInput lone))) ''chat_message'']"
    by blast
  with h3 have c3: "snd (sendChatMessage lone) =
     [AddLog (lit ''You: '' @ [0x68, 0x69, 0xD800]) ''user'',
      PublishData 0 [0x68, 0x69, 0xEF, 0xBF, 0xBD] ''chat_message'']"
    by (simp add: TextEncoder_encode_examples)
  from h1 h2 h3 c1 c2 c3 show ?thesis
    unfolding blank_def padded_def lone_def by blast
qed

section \<open>After a disconnect\<close>

text \<open>
  The chat and microphone handlers test \<open>room\<close>, which the disconnect branch leaves set,
  and not \<open>isConnected\<close>. Before the first room is made both do nothing.
\<close>

lemma sendChatMessage_no_room: "room st = None \<Longrightarrow> sendChatMessage st = (st, [])"
  by (simp add: sendChatMessage_def Let_def)

lemma micBtn_click_no_room: "room st = None \<Longrightarrow> micBtn_click st = (st, [])"
  by (simp add: micBtn_click_def)

text \<open>
  C1. After a session that connected and was disconnected by a click, with \<^verbatim>\<open>hi\<close> typed
  into the chat input, \<open>isConnected\<close> is false and a click on the send button logs the text
  and publishes its two bytes to room 0.
\<close>

theorem sendChat_after_disconnect:
  "isConnected (fst (run initial_state (connect_ok [] @ [Click_connect, Input (lit ''hi'')]))) = False \<and>
   snd (step (fst (run initial_state (connect_ok [] @ [Click_connect, Input (lit ''hi'')]))) Click_send) =
     [AddLog (lit ''You: hi'') ''user'',
      PublishData 0 (TextEncoder_encode (lit ''hi'')) ''chat_message''] \<and>
   TextEncoder_encode (lit ''hi'') = [0x68, 0x69]"
  by (simp add: script_defs TextEncoder_encode_def utf8_def isHighSurrogate_def isLowSurrogate_def)

text \<open>
  C7. After a session that connected and was disconnected by a click, \<open>isConnected\<close> is
  false and a click on the microphone button flips \<open>isMicOn\<close> and calls
  \<^verbatim>\<open>setMicrophoneEnabled(false)\<close> on room 0.
\<close>

theorem mic_toggle_after_disconnect:
  "isConnected (fst (run initial_state (connect_ok [] @ [Click_connect]))) = False \<and>
   isMicOn (fst (run initial_state (connect_ok [] @ [Click_connect]))) = True \<and>
   step (fst (run initial_state (connect_ok [] @ [Click_connect]))) Click_mic =
     ((fst (run initial_state (connect_ok [] @ [Click_connect])))
        \<lparr>isMicOn := False, pending := [Await_mic_toggle]\<rparr>,
      [SetMicrophoneEnabled 0 False])"
  by (simp add: script_defs)

end
